theory Spec2Isabelle
  imports Complex_Main "HOL-Library.Word"
begin

section \<open>Tensors and errors\<close>

text \<open>
  The script \<^verbatim>\<open>1850_pd.py\<close> works on PyTorch tensors. A tensor is modelled by its
  shape together with its entries as nested lists. Entries are exact real numbers: the
  rounding of the 32-bit floating-point arithmetic of the library is not modelled.
  Every exception the script can raise is a value of the type \<open>error\<close>.
\<close>

datatype error =
    IndexError
  | InterpolateError
  | BroadcastError
  | ValueError
  | RenderError
  | InputIOError
  | OutputIOError

type_synonym 'a result = "error + 'a"

text \<open>A feature map layer: shape (batch, chans, rows, cols), entries indexed [n][c][h][w].\<close>

record tensor4 =
  batch :: nat
  chans :: nat
  rows :: nat
  cols :: nat
  vals :: "real list list list list"

text \<open>The per-pixel map: shape (rows2, cols2), entries indexed [h][w].\<close>

record tensor2 =
  rows2 :: nat
  cols2 :: nat
  cells :: "real list list"

definition wf_tensor4 :: "tensor4 \<Rightarrow> bool" where
  "wf_tensor4 t \<longleftrightarrow>
     length (vals t) = batch t \<and>
     (\<forall>img \<in> set (vals t). length img = chans t \<and>
        (\<forall>plane \<in> set img. length plane = rows t \<and>
           (\<forall>row \<in> set plane. length row = cols t)))"

text \<open>\<^verbatim>\<open>torch.zeros((height, width))\<close>\<close>

definition zeros :: "nat \<Rightarrow> nat \<Rightarrow> tensor2" where
  "zeros height width =
     \<lparr>rows2 = height, cols2 = width, cells = replicate height (replicate width 0)\<rparr>"

text \<open>\<^verbatim>\<open>t[h, w] = v\<close>, with \<open>h\<close> and \<open>w\<close> inside the shape.\<close>

definition set_cell :: "tensor2 \<Rightarrow> nat \<Rightarrow> nat \<Rightarrow> real \<Rightarrow> tensor2" where
  "set_cell t h w v = t\<lparr>cells := (cells t)[h := (cells t ! h)[w := v]]\<rparr>"

section \<open>Bilinear resampling\<close>

text \<open>
  Modelled from the spec: \<^verbatim>\<open>F.interpolate(x, size=(height, width), mode='bilinear',
  align_corners=False)\<close> is a library function whose code is not part of the repository.
  The spec asks for bilinear interpolation without corner alignment, where pixel centres
  are the sampling grid: output index \<open>dst\<close> reads the source coordinate
  \<open>scale * (dst + 1/2) - 1/2\<close> with \<open>scale = in_size / out_size\<close>, clamped below at 0,
  and mixes the two neighbouring source entries linearly. The library rejects an input
  with a zero channel or spatial extent and an output size of zero.
\<close>

definition area_pixel_compute_source_index :: "nat \<Rightarrow> nat \<Rightarrow> nat \<Rightarrow> real" where
  "area_pixel_compute_source_index in_size out_size dst =
     max 0 ((real in_size / real out_size) * (real dst + 1 / 2) - 1 / 2)"

definition source_index0 :: "nat \<Rightarrow> nat \<Rightarrow> nat \<Rightarrow> nat" where
  "source_index0 in_size out_size dst =
     nat \<lfloor>area_pixel_compute_source_index in_size out_size dst\<rfloor>"

definition source_index1 :: "nat \<Rightarrow> nat \<Rightarrow> nat \<Rightarrow> nat" where
  "source_index1 in_size out_size dst =
     (let i0 = source_index0 in_size out_size dst
      in if i0 < in_size - 1 then i0 + 1 else i0)"

definition lambda1 :: "nat \<Rightarrow> nat \<Rightarrow> nat \<Rightarrow> real" where
  "lambda1 in_size out_size dst =
     area_pixel_compute_source_index in_size out_size dst
       - real (source_index0 in_size out_size dst)"

definition lambda0 :: "nat \<Rightarrow> nat \<Rightarrow> nat \<Rightarrow> real" where
  "lambda0 in_size out_size dst = 1 - lambda1 in_size out_size dst"

definition bilinear_at ::
  "real list list \<Rightarrow> nat \<Rightarrow> nat \<Rightarrow> nat \<Rightarrow> nat \<Rightarrow> nat \<Rightarrow> nat \<Rightarrow> real" where
  "bilinear_at plane in_h in_w out_h out_w h w =
     (let h0 = source_index0 in_h out_h h; h1 = source_index1 in_h out_h h;
          w0 = source_index0 in_w out_w w; w1 = source_index1 in_w out_w w
      in lambda0 in_h out_h h
           * (lambda0 in_w out_w w * (plane ! h0 ! w0) + lambda1 in_w out_w w * (plane ! h0 ! w1))
         + lambda1 in_h out_h h
           * (lambda0 in_w out_w w * (plane ! h1 ! w0) + lambda1 in_w out_w w * (plane ! h1 ! w1)))"

definition resample_plane :: "nat \<Rightarrow> nat \<Rightarrow> nat \<Rightarrow> nat \<Rightarrow> real list list \<Rightarrow> real list list" where
  "resample_plane in_h in_w out_h out_w plane =
     map (\<lambda>h. map (\<lambda>w. bilinear_at plane in_h in_w out_h out_w h w) [0..<out_w]) [0..<out_h]"

text \<open>The resampling kernel proper: every plane of every batch element is resampled.\<close>

definition upsample_bilinear2d :: "tensor4 \<Rightarrow> nat \<Rightarrow> nat \<Rightarrow> tensor4" where
  "upsample_bilinear2d x out_h out_w =
     \<lparr>batch = batch x, chans = chans x, rows = out_h, cols = out_w,
      vals = map (map (resample_plane (rows x) (cols x) out_h out_w)) (vals x)\<rparr>"

definition interpolate :: "tensor4 \<Rightarrow> nat \<times> nat \<Rightarrow> tensor4 result" where
  "interpolate x out_size =
     (case out_size of (out_h, out_w) \<Rightarrow>
        if chans x = 0 \<or> rows x = 0 \<or> cols x = 0 \<or> out_h = 0 \<or> out_w = 0
        then Inl InterpolateError
        else Inr (upsample_bilinear2d x out_h out_w))"

section \<open>The L1 loss of two channel vectors\<close>

text \<open>
  \<^verbatim>\<open>t[0, :, h, w]\<close>: the vector of all channels of batch element 0 at pixel (h, w).
  Index 0 is out of bounds for an empty batch, and (h, w) for a smaller grid.
\<close>

definition pixel_vector :: "tensor4 \<Rightarrow> nat \<Rightarrow> nat \<Rightarrow> real list result" where
  "pixel_vector t h w =
     (if batch t = 0 \<or> rows t \<le> h \<or> cols t \<le> w then Inl IndexError
      else Inr (map (\<lambda>plane. plane ! h ! w) (vals t ! 0)))"

text \<open>
  \<^verbatim>\<open>F.l1_loss(input, target, reduction='sum')\<close> on two vectors. The library broadcasts
  the two arguments against each other before subtracting: vectors of equal length are
  taken as they are, a vector of length 1 is stretched to the length of the other, and
  any other pair of lengths raises.
\<close>

definition l1_loss_sum :: "real list \<Rightarrow> real list \<Rightarrow> real result" where
  "l1_loss_sum input target =
     (if length input = length target
      then Inr (sum_list (map (\<lambda>(a, b). \<bar>a - b\<bar>) (zip input target)))
      else if length input = 1
      then Inr (sum_list (map (\<lambda>b. \<bar>hd input - b\<bar>) target))
      else if length target = 1
      then Inr (sum_list (map (\<lambda>a. \<bar>a - hd target\<bar>) input))
      else Inl BroadcastError)"

section \<open>The per-pixel perceptual difference (lines 97 to 115)\<close>

text \<open>
  The body of the innermost loop, lines 109 to 113: the normalised score of one layer pair.
  The division is by a positive channel count, since \<open>interpolate\<close> has rejected a
  tensor without channels before.
\<close>

definition pixel_difference ::
  "nat \<Rightarrow> nat \<Rightarrow> nat \<Rightarrow> nat \<Rightarrow> tensor4 \<Rightarrow> tensor4 \<Rightarrow> real result" where
  "pixel_difference height width h w fm_input fm_synthesized =
     (case interpolate fm_input (height, width) of Inl e \<Rightarrow> Inl e
      | Inr fm_input_resized \<Rightarrow>
     (case interpolate fm_synthesized (height, width) of Inl e \<Rightarrow> Inl e
      | Inr fm_synthesized_resized \<Rightarrow>
     (let num_elements = chans fm_input_resized in
     (case pixel_vector fm_input_resized h w of Inl e \<Rightarrow> Inl e
      | Inr va \<Rightarrow>
     (case pixel_vector fm_synthesized_resized h w of Inl e \<Rightarrow> Inl e
      | Inr vb \<Rightarrow>
     (case l1_loss_sum va vb of Inl e \<Rightarrow> Inl e
      | Inr loss \<Rightarrow> Inr (loss / real num_elements)))))))"

text \<open>The loop over \<^verbatim>\<open>zip(feature_maps_input, feature_maps_synthesized)\<close>, lines 107 to 114.\<close>

fun layer_loop ::
  "nat \<Rightarrow> nat \<Rightarrow> nat \<Rightarrow> nat \<Rightarrow> (tensor4 \<times> tensor4) list \<Rightarrow> real \<Rightarrow> real result" where
  "layer_loop height width h w [] perceptual_difference = Inr perceptual_difference"
| "layer_loop height width h w ((fm_input, fm_synthesized) # rest) perceptual_difference =
     (case pixel_difference height width h w fm_input fm_synthesized of
        Inl e \<Rightarrow> Inl e
      | Inr d \<Rightarrow> layer_loop height width h w rest (perceptual_difference + d))"

text \<open>The loop over \<^verbatim>\<open>w in range(width)\<close>, lines 105 to 115.\<close>

fun width_loop ::
  "tensor4 list \<Rightarrow> tensor4 list \<Rightarrow> nat \<Rightarrow> nat \<Rightarrow> nat \<Rightarrow> nat list \<Rightarrow> tensor2 \<Rightarrow> tensor2 result" where
  "width_loop feature_maps_input feature_maps_synthesized height width h [] pd = Inr pd"
| "width_loop feature_maps_input feature_maps_synthesized height width h (w # ws) pd =
     (case layer_loop height width h w (zip feature_maps_input feature_maps_synthesized) 0 of
        Inl e \<Rightarrow> Inl e
      | Inr perceptual_difference \<Rightarrow>
          width_loop feature_maps_input feature_maps_synthesized height width h ws
            (set_cell pd h w perceptual_difference))"

text \<open>The loop over \<^verbatim>\<open>h in range(height)\<close>, lines 104 to 115.\<close>

fun height_loop ::
  "tensor4 list \<Rightarrow> tensor4 list \<Rightarrow> nat \<Rightarrow> nat \<Rightarrow> nat list \<Rightarrow> tensor2 \<Rightarrow> tensor2 result" where
  "height_loop feature_maps_input feature_maps_synthesized height width [] pd = Inr pd"
| "height_loop feature_maps_input feature_maps_synthesized height width (h # hs) pd =
     (case width_loop feature_maps_input feature_maps_synthesized height width h [0..<width] pd of
        Inl e \<Rightarrow> Inl e
      | Inr pd' \<Rightarrow> height_loop feature_maps_input feature_maps_synthesized height width hs pd')"

text \<open>
  Lines 97 to 115. \<^verbatim>\<open>feature_maps_input[0]\<close> raises on an empty sequence; the shape of
  the map is the spatial shape of that first layer.
\<close>

definition perceptual_difference_per_pixel :: "tensor4 list \<Rightarrow> tensor4 list \<Rightarrow> tensor2 result" where
  "perceptual_difference_per_pixel feature_maps_input feature_maps_synthesized =
     (case feature_maps_input of
        [] \<Rightarrow> Inl IndexError
      | fm0 # _ \<Rightarrow>
          (let height = rows fm0; width = cols fm0
           in height_loop feature_maps_input feature_maps_synthesized height width
                [0..<height] (zeros height width)))"

section \<open>The aggregation with the resize hoisted out of the pixel loop\<close>

text \<open>
  The reimplementation the design notes ask for: every layer pair is resized once, before
  the pixel loop, and the pixel loop only indexes into the resized layers.
\<close>

fun resize_layers ::
  "nat \<Rightarrow> nat \<Rightarrow> (tensor4 \<times> tensor4) list \<Rightarrow> (tensor4 \<times> tensor4) list result" where
  "resize_layers height width [] = Inr []"
| "resize_layers height width ((fm_input, fm_synthesized) # rest) =
     (case interpolate fm_input (height, width) of Inl e \<Rightarrow> Inl e
      | Inr fm_input_resized \<Rightarrow>
     (case interpolate fm_synthesized (height, width) of Inl e \<Rightarrow> Inl e
      | Inr fm_synthesized_resized \<Rightarrow>
     (case resize_layers height width rest of Inl e \<Rightarrow> Inl e
      | Inr resized \<Rightarrow> Inr ((fm_input_resized, fm_synthesized_resized) # resized))))"

definition indexed_difference :: "nat \<Rightarrow> nat \<Rightarrow> tensor4 \<Rightarrow> tensor4 \<Rightarrow> real result" where
  "indexed_difference h w fm_input_resized fm_synthesized_resized =
     (let num_elements = chans fm_input_resized in
     (case pixel_vector fm_input_resized h w of Inl e \<Rightarrow> Inl e
      | Inr va \<Rightarrow>
     (case pixel_vector fm_synthesized_resized h w of Inl e \<Rightarrow> Inl e
      | Inr vb \<Rightarrow>
     (case l1_loss_sum va vb of Inl e \<Rightarrow> Inl e
      | Inr loss \<Rightarrow> Inr (loss / real num_elements)))))"

fun hoisted_layer_loop :: "nat \<Rightarrow> nat \<Rightarrow> (tensor4 \<times> tensor4) list \<Rightarrow> real \<Rightarrow> real result" where
  "hoisted_layer_loop h w [] perceptual_difference = Inr perceptual_difference"
| "hoisted_layer_loop h w ((fm_input_resized, fm_synthesized_resized) # rest) perceptual_difference =
     (case indexed_difference h w fm_input_resized fm_synthesized_resized of
        Inl e \<Rightarrow> Inl e
      | Inr d \<Rightarrow> hoisted_layer_loop h w rest (perceptual_difference + d))"

fun hoisted_width_loop ::
  "(tensor4 \<times> tensor4) list \<Rightarrow> nat \<Rightarrow> nat list \<Rightarrow> tensor2 \<Rightarrow> tensor2 result" where
  "hoisted_width_loop resized h [] pd = Inr pd"
| "hoisted_width_loop resized h (w # ws) pd =
     (case hoisted_layer_loop h w resized 0 of
        Inl e \<Rightarrow> Inl e
      | Inr perceptual_difference \<Rightarrow>
          hoisted_width_loop resized h ws (set_cell pd h w perceptual_difference))"

fun hoisted_height_loop ::
  "(tensor4 \<times> tensor4) list \<Rightarrow> nat \<Rightarrow> nat list \<Rightarrow> tensor2 \<Rightarrow> tensor2 result" where
  "hoisted_height_loop resized width [] pd = Inr pd"
| "hoisted_height_loop resized width (h # hs) pd =
     (case hoisted_width_loop resized h [0..<width] pd of
        Inl e \<Rightarrow> Inl e
      | Inr pd' \<Rightarrow> hoisted_height_loop resized width hs pd')"

definition hoisted_perceptual_difference :: "tensor4 list \<Rightarrow> tensor4 list \<Rightarrow> tensor2 result" where
  "hoisted_perceptual_difference feature_maps_input feature_maps_synthesized =
     (case feature_maps_input of
        [] \<Rightarrow> Inl IndexError
      | fm0 # _ \<Rightarrow>
          (let height = rows fm0; width = cols fm0 in
           (case resize_layers height width (zip feature_maps_input feature_maps_synthesized) of
              Inl e \<Rightarrow> Inl e
            | Inr resized \<Rightarrow>
                hoisted_height_loop resized width [0..<height] (zeros height width))))"

section \<open>Valid inputs and the closed form of the map\<close>

definition entry4 :: "tensor4 \<Rightarrow> nat \<Rightarrow> nat \<Rightarrow> nat \<Rightarrow> nat \<Rightarrow> real" where
  "entry4 t n c h w = vals t ! n ! c ! h ! w"

text \<open>
  A feature map layer of the data model: a well-formed tensor of batch size 1 whose
  channel count and spatial extent are positive.
\<close>

definition valid_layer :: "tensor4 \<Rightarrow> bool" where
  "valid_layer t \<longleftrightarrow> wf_tensor4 t \<and> batch t = 1 \<and> 0 < chans t \<and> 0 < rows t \<and> 0 < cols t"

text \<open>
  The layer/channel invariant: both extractions have the same number of layers (at least
  one) and, layer by layer, the same channel count.
\<close>

definition valid_pair :: "tensor4 list \<Rightarrow> tensor4 list \<Rightarrow> bool" where
  "valid_pair A B \<longleftrightarrow>
     A \<noteq> [] \<and> length A = length B \<and>
     (\<forall>(a, b) \<in> set (zip A B). valid_layer a \<and> valid_layer b \<and> chans a = chans b)"

definition layer_score :: "nat \<Rightarrow> nat \<Rightarrow> nat \<Rightarrow> nat \<Rightarrow> tensor4 \<Rightarrow> tensor4 \<Rightarrow> real" where
  "layer_score height width h w a b =
     (\<Sum>c<chans a. \<bar>entry4 (upsample_bilinear2d a height width) 0 c h w
                     - entry4 (upsample_bilinear2d b height width) 0 c h w\<bar>) / real (chans a)"

definition pixel_score :: "tensor4 list \<Rightarrow> tensor4 list \<Rightarrow> nat \<Rightarrow> nat \<Rightarrow> nat \<Rightarrow> nat \<Rightarrow> real" where
  "pixel_score A B height width h w =
     sum_list (map (\<lambda>(a, b). layer_score height width h w a b) (zip A B))"

definition score_table :: "tensor4 list \<Rightarrow> tensor4 list \<Rightarrow> nat \<Rightarrow> nat \<Rightarrow> tensor2" where
  "score_table A B height width =
     \<lparr>rows2 = height, cols2 = width,
      cells = map (\<lambda>h. map (\<lambda>w. pixel_score A B height width h w) [0..<width]) [0..<height]\<rparr>"

section \<open>The image preprocessor (lines 34 to 40)\<close>

type_synonym pixel = "8 word \<times> 8 word \<times> 8 word"

text \<open>A decoded RGB image, as \<^verbatim>\<open>Image.open(path).convert('RGB')\<close> returns it.\<close>

record image =
  im_width :: nat
  im_height :: nat
  im_pixels :: "pixel list list"

record tensor3 =
  chans3 :: nat
  rows3 :: nat
  cols3 :: nat
  vals3 :: "real list list list"

text \<open>
  \<^verbatim>\<open>transforms.Resize((h, w))\<close> returns an image of exactly the requested size, whatever
  the size of its input. The resampling filter of the imaging library is a parameter:
  \<open>resample img (h, w) i j\<close> is the pixel it computes for row \<open>i\<close> and column \<open>j\<close>.
\<close>

type_synonym resampler = "image \<Rightarrow> nat \<times> nat \<Rightarrow> nat \<Rightarrow> nat \<Rightarrow> pixel"

definition Resize :: "resampler \<Rightarrow> nat \<times> nat \<Rightarrow> image \<Rightarrow> image" where
  "Resize resample sz img =
     (case sz of (h, w) \<Rightarrow>
        \<lparr>im_width = w, im_height = h,
         im_pixels = map (\<lambda>i. map (\<lambda>j. resample img (h, w) i j) [0..<w]) [0..<h]\<rparr>)"

definition channel :: "nat \<Rightarrow> pixel \<Rightarrow> 8 word" where
  "channel c p = (case p of (r, g, b) \<Rightarrow> if c = 0 then r else if c = 1 then g else b)"

text \<open>\<^verbatim>\<open>transforms.ToTensor()\<close>: height x width x RGB bytes become 3 x height x width values in [0, 1].\<close>

definition ToTensor :: "image \<Rightarrow> tensor3" where
  "ToTensor img =
     \<lparr>chans3 = 3, rows3 = im_height img, cols3 = im_width img,
      vals3 = map (\<lambda>c. map (map (\<lambda>p. real (unat (channel c p)) / 255)) (im_pixels img)) [0..<3]\<rparr>"

text \<open>
  \<^verbatim>\<open>transforms.Normalize(mean, std)\<close>: a zero in \<open>std\<close> is rejected; \<open>mean\<close> and \<open>std\<close> are
  broadcast along the channels, so each has one entry or one entry per channel.
\<close>

definition Normalize :: "real list \<Rightarrow> real list \<Rightarrow> tensor3 \<Rightarrow> tensor3 result" where
  "Normalize mean std t =
     (if 0 \<in> set std then Inl ValueError
      else if (length mean \<noteq> 1 \<and> length mean \<noteq> chans3 t) \<or>
              (length std \<noteq> 1 \<and> length std \<noteq> chans3 t) then Inl BroadcastError
      else Inr (t\<lparr>vals3 :=
             map (\<lambda>(c, plane).
                    map (map (\<lambda>x. (x - mean ! (if length mean = 1 then 0 else c))
                                     / std ! (if length std = 1 then 0 else c))) plane)
                 (zip [0..<chans3 t] (vals3 t))\<rparr>))"

text \<open>\<^verbatim>\<open>t.unsqueeze(0)\<close> on a 3-dimensional tensor.\<close>

definition unsqueeze0 :: "tensor3 \<Rightarrow> tensor4" where
  "unsqueeze0 t = \<lparr>batch = 1, chans = chans3 t, rows = rows3 t, cols = cols3 t, vals = [vals3 t]\<rparr>"

definition transform :: "resampler \<Rightarrow> image \<Rightarrow> tensor3 result" where
  "transform resample img =
     Normalize [0.485, 0.456, 0.406] [0.229, 0.224, 0.225]
       (ToTensor (Resize resample (224, 224) img))"

definition preprocess :: "resampler \<Rightarrow> image \<Rightarrow> tensor4 result" where
  "preprocess resample img =
     (case transform resample img of Inl e \<Rightarrow> Inl e | Inr t \<Rightarrow> Inr (unsqueeze0 t))"

section \<open>Files, paths and the frame loop (lines 10 to 25 and 118 to 152)\<close>

datatype file_content = ImageFile image | OtherFile

text \<open>
  The part of the file system the script can see: the directories that exist and the
  files by path. The script reads two files per frame and writes one.
\<close>

record filesystem =
  directories :: "string set"
  files :: "string \<rightharpoonup> file_content"

definition input_dir :: string where
  "input_dir = ''/disk/vanishing_data/du541/RGB_in_anovox_832_320_images''"

definition synthesized_dir :: string where
  "synthesized_dir = ''/disk/vanishing_data/du541/RGB_out_anovox_832_320_images''"

definition save_dir :: string where
  "save_dir = ''/disk/vanishing_data/du541/anomaly_scores/perceptual_difference''"

text \<open>\<^verbatim>\<open>os.path.join(a, b)\<close> on POSIX paths.\<close>

definition os_path_join :: "string \<Rightarrow> string \<Rightarrow> string" where
  "os_path_join a b =
     (if b \<noteq> [] \<and> hd b = CHR ''/'' then b
      else if a = [] \<or> last a = CHR ''/'' then a @ b
      else a @ ''/'' @ b)"

text \<open>\<^verbatim>\<open>os.path.dirname(p)\<close>: the path up to the last separator, trailing separators stripped.\<close>

definition dirname :: "string \<Rightarrow> string" where
  "dirname p =
     (let head = rev (dropWhile (\<lambda>c. c \<noteq> CHR ''/'') (rev p))
      in if head \<noteq> [] \<and> \<not> list_all (\<lambda>c. c = CHR ''/'') head
         then rev (dropWhile (\<lambda>c. c = CHR ''/'') (rev head))
         else head)"

text \<open>The decimal digits of a frame number, as the f-string prints them.\<close>

function str_nat :: "nat \<Rightarrow> string" where
  "str_nat n =
     (if n < 10 then [''0123456789'' ! n]
      else str_nat (n div 10) @ [''0123456789'' ! (n mod 10)])"
  by pat_completeness auto
termination
  by (relation "measure (\<lambda>n. n)") auto

definition frame_name :: "nat \<Rightarrow> string" where
  "frame_name frame_number = ''frame_'' @ str_nat frame_number @ ''.png''"

definition heatmap_name :: "nat \<Rightarrow> string" where
  "heatmap_name frame_number = ''perceptual_difference_'' @ str_nat frame_number @ ''.png''"

text \<open>
  \<^verbatim>\<open>Image.open(path).convert('RGB')\<close>: a missing file and a file that does not decode
  both raise.
\<close>

definition Image_open :: "filesystem \<Rightarrow> string \<Rightarrow> image result" where
  "Image_open fs path =
     (case files fs path of
        None \<Rightarrow> Inl InputIOError
      | Some OtherFile \<Rightarrow> Inl InputIOError
      | Some (ImageFile img) \<Rightarrow> Inr img)"

text \<open>
  \<^verbatim>\<open>plt.savefig(path, ...)\<close> opens \<open>path\<close> for writing: this raises when the directory of
  \<open>path\<close> does not exist (or \<open>path\<close> is itself a directory) and creates or replaces the
  file otherwise. It creates no directory.
\<close>

definition savefig :: "filesystem \<Rightarrow> string \<Rightarrow> image \<Rightarrow> filesystem result" where
  "savefig fs path fig =
     (if dirname path \<notin> directories fs \<or> path \<in> directories fs then Inl OutputIOError
      else Inr (fs\<lparr>files := (files fs)(path \<mapsto> ImageFile fig)\<rparr>))"

text \<open>\<^verbatim>\<open>t.unsqueeze(0).unsqueeze(0)\<close> on the 2-dimensional map.\<close>

definition unsqueeze00 :: "tensor2 \<Rightarrow> tensor4" where
  "unsqueeze00 t = \<lparr>batch = 1, chans = 1, rows = rows2 t, cols = cols2 t, vals = [[cells t]]\<rparr>"

text \<open>
  Lines 30 to 147: from the two decoded images to the figure that is saved. The feature
  extractor \<open>resnet18\<close> (a pretrained network of a library) and the colour mapping \<open>hot\<close>
  of the plotting library are parameters. After \<^verbatim>\<open>.squeeze()\<close> the resized map is
  2-dimensional only when both of its extents exceed 1, and \<^verbatim>\<open>plt.imshow\<close> takes no
  other shape here.
\<close>

definition heatmap ::
  "resampler \<Rightarrow> (tensor4 \<Rightarrow> tensor4 list) \<Rightarrow> (real list list \<Rightarrow> image) \<Rightarrow>
   image \<Rightarrow> image \<Rightarrow> image result" where
  "heatmap resample resnet18 hot input_image synthesized_image =
     (case preprocess resample input_image of Inl e \<Rightarrow> Inl e
      | Inr input_image_tensor \<Rightarrow>
     (case preprocess resample synthesized_image of Inl e \<Rightarrow> Inl e
      | Inr synthesized_image_tensor \<Rightarrow>
     (let feature_maps_input = resnet18 input_image_tensor;
          feature_maps_synthesized = resnet18 synthesized_image_tensor in
     (case perceptual_difference_per_pixel feature_maps_input feature_maps_synthesized of
        Inl e \<Rightarrow> Inl e
      | Inr pd \<Rightarrow>
     (case interpolate (unsqueeze00 pd) (im_height input_image, im_width input_image) of
        Inl e \<Rightarrow> Inl e
      | Inr perceptual_difference_resized \<Rightarrow>
          if rows perceptual_difference_resized \<le> 1 \<or> cols perceptual_difference_resized \<le> 1
          then Inl RenderError
          else Inr (hot (vals perceptual_difference_resized ! 0 ! 0)))))))"

text \<open>One iteration of the frame loop, lines 20 to 152.\<close>

definition process_frame ::
  "resampler \<Rightarrow> (tensor4 \<Rightarrow> tensor4 list) \<Rightarrow> (real list list \<Rightarrow> image) \<Rightarrow>
   filesystem \<Rightarrow> nat \<Rightarrow> filesystem result" where
  "process_frame resample resnet18 hot fs frame_number =
     (let input_image_path = os_path_join input_dir (frame_name frame_number);
          synthesized_image_path = os_path_join synthesized_dir (frame_name frame_number) in
     (case Image_open fs input_image_path of Inl e \<Rightarrow> Inl e
      | Inr input_image \<Rightarrow>
     (case Image_open fs synthesized_image_path of Inl e \<Rightarrow> Inl e
      | Inr synthesized_image \<Rightarrow>
     (case heatmap resample resnet18 hot input_image synthesized_image of Inl e \<Rightarrow> Inl e
      | Inr fig \<Rightarrow>
          savefig fs (os_path_join save_dir (heatmap_name frame_number)) fig))))"

text \<open>The loop \<^verbatim>\<open>for frame_number in range(1, 1851)\<close>; an exception ends the run.\<close>

fun frame_loop ::
  "resampler \<Rightarrow> (tensor4 \<Rightarrow> tensor4 list) \<Rightarrow> (real list list \<Rightarrow> image) \<Rightarrow>
   filesystem \<Rightarrow> nat list \<Rightarrow> filesystem result" where
  "frame_loop resample resnet18 hot fs [] = Inr fs"
| "frame_loop resample resnet18 hot fs (frame_number # rest) =
     (case process_frame resample resnet18 hot fs frame_number of
        Inl e \<Rightarrow> Inl e
      | Inr fs' \<Rightarrow> frame_loop resample resnet18 hot fs' rest)"

definition script ::
  "resampler \<Rightarrow> (tensor4 \<Rightarrow> tensor4 list) \<Rightarrow> (real list list \<Rightarrow> image) \<Rightarrow>
   filesystem \<Rightarrow> filesystem result" where
  "script resample resnet18 hot fs = frame_loop resample resnet18 hot fs [1..<1851]"

section \<open>Sample feature maps\<close>

text \<open>
  Two small extractions of two layers each: layer 0 has 2 channels on a 2 x 2 grid, layer 1
  has 1 channel on a 1 x 1 grid. A third tensor has a single channel on a 2 x 2 grid, and
  a fourth has 3 channels on a 1 x 1 grid.
\<close>

definition example_a0 :: tensor4 where
  "example_a0 = \<lparr>batch = 1, chans = 2, rows = 2, cols = 2,
                  vals = [[[[1, 2], [3, 4]], [[0, 1], [1, 0]]]]\<rparr>"

definition example_a1 :: tensor4 where
  "example_a1 = \<lparr>batch = 1, chans = 1, rows = 1, cols = 1, vals = [[[[5]]]]\<rparr>"

definition example_b0 :: tensor4 where
  "example_b0 = \<lparr>batch = 1, chans = 2, rows = 2, cols = 2,
                  vals = [[[[1, 0], [3, 7]], [[0, 1], [2, 0]]]]\<rparr>"

definition example_b1 :: tensor4 where
  "example_b1 = \<lparr>batch = 1, chans = 1, rows = 1, cols = 1, vals = [[[[3]]]]\<rparr>"

definition example_c0 :: tensor4 where
  "example_c0 = \<lparr>batch = 1, chans = 1, rows = 2, cols = 2, vals = [[[[1, 2], [3, 4]]]]\<rparr>"

definition example_d0 :: tensor4 where
  "example_d0 = \<lparr>batch = 1, chans = 3, rows = 1, cols = 1, vals = [[[[1]], [[2]], [[3]]]]\<rparr>"

section \<open>A sample image, stub collaborators and a sample file system\<close>

text \<open>
  A 3 x 2 image, a nearest-neighbour resampling filter, an extractor that returns the
  sample layers above whatever its input, a two-colour palette, and a file system that
  holds the two images of frame 1, without and with the save directory.
\<close>

definition example_image :: image where
  "example_image =
     \<lparr>im_width = 3, im_height = 2,
      im_pixels = [[(255, 0, 51), (0, 102, 255), (1, 2, 3)],
                   [(4, 5, 6), (7, 8, 9), (10, 11, 12)]]\<rparr>"

definition nearest_resample :: resampler where
  "nearest_resample img sz i j =
     (case sz of (h, w) \<Rightarrow>
        im_pixels img ! (i * im_height img div h) ! (j * im_width img div w))"

definition example_extractor :: "tensor4 \<Rightarrow> tensor4 list" where
  "example_extractor t = [example_a0, example_a1]"

definition example_hot :: "real list list \<Rightarrow> image" where
  "example_hot plane =
     \<lparr>im_width = (case plane of [] \<Rightarrow> 0 | row # _ \<Rightarrow> length row), im_height = length plane,
      im_pixels = map (map (\<lambda>v. if v \<le> 0 then (0, 0, 0) else (255, 255, 255))) plane\<rparr>"

definition example_fs :: filesystem where
  "example_fs =
     \<lparr>directories = {input_dir, synthesized_dir},
      files = [os_path_join input_dir (frame_name 1) \<mapsto> ImageFile example_image,
               os_path_join synthesized_dir (frame_name 1) \<mapsto> ImageFile example_image]\<rparr>"

definition example_fs_with_save_dir :: filesystem where
  "example_fs_with_save_dir =
     example_fs\<lparr>directories := insert save_dir (directories example_fs)\<rparr>"

section \<open>Properties of the aggregation loops\<close>

lemma interpolate_valid:
  "valid_layer t \<Longrightarrow> 0 < height \<Longrightarrow> 0 < width \<Longrightarrow>
   interpolate t (height, width) = Inr (upsample_bilinear2d t height width)"
  by (simp add: interpolate_def valid_layer_def)

lemma vals_hd_length:
  assumes "valid_layer t"
  shows "length (vals t ! 0) = chans t"
proof -
  from assms have "length (vals t) = 1" and wf: "wf_tensor4 t"
    by (simp_all add: valid_layer_def wf_tensor4_def)
  then have "vals t ! 0 \<in> set (vals t)" by simp
  with wf show ?thesis by (simp add: wf_tensor4_def)
qed

lemma pixel_vector_upsample:
  assumes "valid_layer t" "h < height" "w < width"
  shows "pixel_vector (upsample_bilinear2d t height width) h w =
         Inr (map (\<lambda>c. entry4 (upsample_bilinear2d t height width) 0 c h w) [0..<chans t])"
proof -
  let ?u = "upsample_bilinear2d t height width"
  from assms(1) have len1: "length (vals t) = 1"
    by (simp add: valid_layer_def wf_tensor4_def)
  have b: "batch ?u = 1" "rows ?u = height" "cols ?u = width"
    using assms(1) by (simp_all add: upsample_bilinear2d_def valid_layer_def)
  have len: "length (vals ?u ! 0) = chans t"
    using vals_hd_length[OF assms(1)] len1 by (simp add: upsample_bilinear2d_def)
  have "map (\<lambda>plane. plane ! h ! w) (vals ?u ! 0) = map (\<lambda>c. entry4 ?u 0 c h w) [0..<chans t]"
    by (rule nth_equalityI) (simp_all add: len entry4_def)
  then show ?thesis using b assms(2,3) by (simp add: pixel_vector_def)
qed

lemma l1_loss_sum_maps:
  "l1_loss_sum (map f [0..<n]) (map g [0..<n]) = Inr (\<Sum>c<n. \<bar>f c - g c\<bar>)"
proof -
  have "zip (map f [0..<n]) (map g [0..<n]) = map (\<lambda>c. (f c, g c)) [0..<n]"
    by (simp add: zip_map_map zip_same_conv_map)
  then have "sum_list (map (\<lambda>(a, b). \<bar>a - b\<bar>) (zip (map f [0..<n]) (map g [0..<n])))
             = sum_list (map (\<lambda>c. \<bar>f c - g c\<bar>) [0..<n])"
    by (simp add: comp_def)
  also have "\<dots> = (\<Sum>c<n. \<bar>f c - g c\<bar>)"
    by (simp add: interv_sum_list_conv_sum_set_nat atLeast0LessThan)
  finally show ?thesis by (simp add: l1_loss_sum_def)
qed

lemma pixel_difference_valid:
  assumes "valid_layer a" "valid_layer b" "chans a = chans b" "h < height" "w < width"
  shows "pixel_difference height width h w a b = Inr (layer_score height width h w a b)"
proof -
  from assms(4,5) have pos: "0 < height" "0 < width" by simp_all
  have ca: "chans (upsample_bilinear2d a height width) = chans a"
    by (simp add: upsample_bilinear2d_def)
  show ?thesis
    unfolding pixel_difference_def
    by (simp add: interpolate_valid[OF assms(1) pos] interpolate_valid[OF assms(2) pos]
        pixel_vector_upsample[OF assms(1,4,5)] pixel_vector_upsample[OF assms(2,4,5)]
        assms(3)[symmetric] l1_loss_sum_maps ca layer_score_def)
qed

lemma layer_loop_valid:
  assumes "\<forall>(a, b) \<in> set ps. valid_layer a \<and> valid_layer b \<and> chans a = chans b"
    and "h < height" "w < width"
  shows "layer_loop height width h w ps acc =
         Inr (acc + sum_list (map (\<lambda>(a, b). layer_score height width h w a b) ps))"
  using assms(1)
proof (induction ps arbitrary: acc)
  case Nil
  then show ?case by simp
next
  case (Cons p ps)
  obtain a b where p: "p = (a, b)" by (cases p)
  with Cons.prems have v: "valid_layer a" "valid_layer b" "chans a = chans b"
    and rest: "\<forall>(a, b) \<in> set ps. valid_layer a \<and> valid_layer b \<and> chans a = chans b"
    by auto
  show ?case
    by (simp add: p pixel_difference_valid[OF v assms(2,3)] Cons.IH[OF rest] add.assoc)
qed

lemma width_loop_fold:
  assumes "\<forall>w \<in> set ws. layer_loop height width h w (zip A B) 0 = Inr (f w)"
  shows "width_loop A B height width h ws pd = Inr (fold (\<lambda>w t. set_cell t h w (f w)) ws pd)"
  using assms by (induction ws arbitrary: pd) simp_all

lemma height_loop_fold:
  assumes "\<forall>h \<in> set hs. \<forall>pd. width_loop A B height width h [0..<width] pd = Inr (g h pd)"
  shows "height_loop A B height width hs pd = Inr (fold g hs pd)"
  using assms by (induction hs arbitrary: pd) simp_all

lemma fold_update_row:
  "n \<le> length r \<Longrightarrow> fold (\<lambda>w r. r[w := f w]) [0..<n] r = map f [0..<n] @ drop n r"
proof (induction n)
  case 0
  then show ?case by simp
next
  case (Suc n)
  then have "n < length r" by simp
  then have "(map f [0..<n] @ drop n r)[n := f n] = map f [0..<n] @ f n # drop (Suc n) r"
    by (simp add: list_update_append Cons_nth_drop_Suc[symmetric] )
  with Suc show ?case by simp
qed

lemma fold_set_cell_row:
  assumes "h < length (cells pd)" "width \<le> length (cells pd ! h)"
  shows "fold (\<lambda>w t. set_cell t h w (f w)) [0..<width] pd =
         pd\<lparr>cells := (cells pd)[h := map f [0..<width] @ drop width (cells pd ! h)]\<rparr>"
proof -
  have "n \<le> width \<Longrightarrow> fold (\<lambda>w t. set_cell t h w (f w)) [0..<n] pd =
         pd\<lparr>cells := (cells pd)[h := fold (\<lambda>w r. r[w := f w]) [0..<n] (cells pd ! h)]\<rparr>" for n
  proof (induction n)
    case 0
    then show ?case by simp
  next
    case (Suc n)
    then show ?case using assms(1) by (simp add: set_cell_def)
  qed
  from this[of width] show ?thesis using assms(2) by (simp add: fold_update_row)
qed


lemma fold_rows_table:
  assumes "n \<le> height"
  shows "fold (\<lambda>h t. fold (\<lambda>w t. set_cell t h w (f h w)) [0..<width] t) [0..<n] (zeros height width) =
         \<lparr>rows2 = height, cols2 = width,
          cells = map (\<lambda>h. map (f h) [0..<width]) [0..<n] @ replicate (height - n) (replicate width 0)\<rparr>"
  using assms
proof (induction n)
  case 0
  then show ?case by (simp add: zeros_def)
next
  case (Suc n)
  let ?t = "\<lparr>rows2 = height, cols2 = width,
          cells = map (\<lambda>h. map (f h) [0..<width]) [0..<n] @ replicate (height - n) (replicate width 0)\<rparr>"
  from Suc.prems have n: "n < height" by simp
  then have len: "n < length (cells ?t)" by simp
  have row: "cells ?t ! n = replicate width 0"
    using n by (simp add: nth_append)
  then have wlen: "width \<le> length (cells ?t ! n)" by simp
  have rep: "replicate (height - n) (replicate width (0::real)) =
             replicate width 0 # replicate (height - Suc n) (replicate width 0)"
    using n by (metis Suc_diff_Suc replicate_Suc)
  have "fold (\<lambda>w t. set_cell t n w (f n w)) [0..<width] ?t =
        ?t\<lparr>cells := (cells ?t)[n := map (f n) [0..<width] @ drop width (cells ?t ! n)]\<rparr>"
    by (rule fold_set_cell_row[OF len wlen])
  also have "\<dots> = \<lparr>rows2 = height, cols2 = width,
          cells = map (\<lambda>h. map (f h) [0..<width]) [0..<Suc n]
                  @ replicate (height - Suc n) (replicate width 0)\<rparr>"
    by (simp only: row) (simp add: list_update_append rep)
  finally show ?case using Suc.IH n by simp
qed

lemma perceptual_difference_valid:
  assumes "valid_pair A B"
  shows "perceptual_difference_per_pixel A B =
         Inr (score_table A B (rows (hd A)) (cols (hd A)))"
proof -
  from assms obtain fm0 rest where A: "A = fm0 # rest"
    by (cases A) (auto simp: valid_pair_def)
  let ?H = "rows fm0" and ?W = "cols fm0"
  from assms have ok: "\<forall>(a, b) \<in> set (zip A B). valid_layer a \<and> valid_layer b \<and> chans a = chans b"
    by (simp add: valid_pair_def)
  have inner: "layer_loop ?H ?W h w (zip A B) 0 = Inr (pixel_score A B ?H ?W h w)"
    if "h < ?H" "w < ?W" for h w
    using layer_loop_valid[OF ok that, of 0] by (simp add: pixel_score_def)
  have wl: "width_loop A B ?H ?W h [0..<?W] pd =
            Inr (fold (\<lambda>w t. set_cell t h w (pixel_score A B ?H ?W h w)) [0..<?W] pd)"
    if "h < ?H" for h pd
    by (rule width_loop_fold) (simp add: inner that)
  have "height_loop A B ?H ?W [0..<?H] (zeros ?H ?W) =
        Inr (fold (\<lambda>h t. fold (\<lambda>w t. set_cell t h w (pixel_score A B ?H ?W h w)) [0..<?W] t)
              [0..<?H] (zeros ?H ?W))"
    by (rule height_loop_fold) (simp add: wl)
  also have "\<dots> = Inr (score_table A B ?H ?W)"
    by (simp add: fold_rows_table score_table_def)
  finally show ?thesis
    by (simp add: perceptual_difference_per_pixel_def A)
qed

lemma layer_score_commute:
  "chans a = chans b \<Longrightarrow> layer_score height width h w a b = layer_score height width h w b a"
  by (simp add: layer_score_def abs_minus_commute)

lemma layer_score_self: "layer_score height width h w a a = 0"
  by (simp add: layer_score_def)

lemma layer_score_nonneg: "0 \<le> layer_score height width h w a b"
  by (simp add: layer_score_def sum_nonneg)

lemma pixel_score_nonneg: "0 \<le> pixel_score A B height width h w"
  unfolding pixel_score_def
  by (rule sum_list_nonneg) (auto simp: layer_score_nonneg)

lemma pixel_score_self: "pixel_score A A height width h w = 0"
proof -
  have "map (\<lambda>(a, b). layer_score height width h w a b) (zip A A) = map (\<lambda>a. 0) A"
    by (simp add: zip_same_conv_map layer_score_self)
  then show ?thesis by (simp add: pixel_score_def)
qed

lemma pixel_score_commute:
  assumes "\<forall>(a, b) \<in> set (zip A B). chans a = chans b"
  shows "pixel_score A B height width h w = pixel_score B A height width h w"
proof -
  have "zip B A = map (\<lambda>(a, b). (b, a)) (zip A B)"
    by (rule zip_commute)
  then have "map (\<lambda>(a, b). layer_score height width h w a b) (zip B A) =
             map (\<lambda>(a, b). layer_score height width h w b a) (zip A B)"
    by (simp add: case_prod_unfold comp_def)
  also have "\<dots> = map (\<lambda>(a, b). layer_score height width h w a b) (zip A B)"
    using assms by (intro map_cong refl) (auto simp: layer_score_commute)
  finally show ?thesis by (simp add: pixel_score_def)
qed

lemma pixel_score_index_sum:
  assumes "length A = length B"
  shows "pixel_score A B height width h w =
         (\<Sum>l<length A. layer_score height width h w (A ! l) (B ! l))"
proof -
  have "pixel_score A B height width h w =
        (\<Sum>l = 0..<length (zip A B). map (\<lambda>(a, b). layer_score height width h w a b) (zip A B) ! l)"
    by (simp add: pixel_score_def sum_list_sum_nth)
  also have "\<dots> = (\<Sum>l = 0..<length A. layer_score height width h w (A ! l) (B ! l))"
    using assms by (intro sum.cong) simp_all
  finally show ?thesis by (simp add: atLeast0LessThan)
qed

lemma valid_pair_commute: "valid_pair A B \<Longrightarrow> valid_pair B A"
proof -
  assume v: "valid_pair A B"
  have "zip B A = map (\<lambda>(a, b). (b, a)) (zip A B)" by (rule zip_commute)
  then have "set (zip B A) = (\<lambda>(a, b). (b, a)) ` set (zip A B)" by simp
  with v show ?thesis by (auto simp: valid_pair_def)
qed

lemma score_table_cell:
  "h < height \<Longrightarrow> w < width \<Longrightarrow>
   cells (score_table A B height width) ! h ! w = pixel_score A B height width h w"
  by (simp add: score_table_def)

lemma zip_take_lengths: "zip (take (length ys) xs) (take (length xs) ys) = zip xs ys"
proof (induction xs arbitrary: ys)
  case Nil
  then show ?case by simp
next
  case (Cons x xs)
  then show ?case by (cases ys) simp_all
qed

lemma width_loop_zip_cong:
  "zip A B = zip A' B' \<Longrightarrow>
   width_loop A B height width h ws pd = width_loop A' B' height width h ws pd"
  by (induction ws arbitrary: pd) (simp_all split: sum.splits)

lemma height_loop_zip_cong:
  assumes "zip A B = zip A' B'"
  shows "height_loop A B height width hs pd = height_loop A' B' height width hs pd"
  by (induction hs arbitrary: pd) (simp_all add: width_loop_zip_cong[OF assms] split: sum.splits)

lemma layer_loop_error:
  assumes "(a, b) \<in> set ps" and "pixel_difference height width h w a b = Inl e"
  shows "\<exists>e'. layer_loop height width h w ps acc = Inl e'"
  using assms(1)
proof (induction ps arbitrary: acc)
  case Nil
  then show ?case by simp
next
  case (Cons p ps)
  obtain a' b' where p: "p = (a', b')" by (cases p)
  show ?case
  proof (cases "pixel_difference height width h w a' b'")
    case (Inl e')
    then show ?thesis by (simp add: p)
  next
    case (Inr d)
    with Cons.prems assms(2) p have "(a, b) \<in> set ps" by auto
    from Cons.IH[OF this] show ?thesis by (simp add: p Inr)
  qed
qed

lemma pixel_vector_length:
  assumes "wf_tensor4 t" and "pixel_vector (upsample_bilinear2d t height width) h w = Inr v"
  shows "length v = chans t"
proof -
  from assms(2) have b: "batch t \<noteq> 0"
    and v: "v = map (\<lambda>plane. plane ! h ! w) (vals (upsample_bilinear2d t height width) ! 0)"
    by (auto simp: pixel_vector_def upsample_bilinear2d_def split: if_splits)
  from b assms(1) have "0 < length (vals t)" by (simp add: wf_tensor4_def)
  then have "vals t ! 0 \<in> set (vals t)" by simp
  with assms(1) have "length (vals t ! 0) = chans t" by (simp add: wf_tensor4_def)
  with v \<open>0 < length (vals t)\<close> show ?thesis by (simp add: upsample_bilinear2d_def)
qed

lemma pixel_difference_channel_mismatch:
  assumes "wf_tensor4 a" "wf_tensor4 b"
    and "chans a \<noteq> chans b" "chans a \<noteq> 1" "chans b \<noteq> 1"
  shows "\<exists>e. pixel_difference height width h w a b = Inl e"
proof (cases "interpolate a (height, width)")
  case (Inl e)
  then show ?thesis by (simp add: pixel_difference_def)
next
  case ia: (Inr ar)
  then have ar: "ar = upsample_bilinear2d a height width"
    by (auto simp: interpolate_def split: if_splits)
  show ?thesis
  proof (cases "interpolate b (height, width)")
    case (Inl e)
    then show ?thesis by (simp add: pixel_difference_def ia)
  next
    case ib: (Inr br)
    then have br: "br = upsample_bilinear2d b height width"
      by (auto simp: interpolate_def split: if_splits)
    show ?thesis
    proof (cases "pixel_vector ar h w")
      case (Inl e)
      then show ?thesis by (simp add: pixel_difference_def ia ib)
    next
      case va: (Inr va)
      show ?thesis
      proof (cases "pixel_vector br h w")
        case (Inl e)
        then show ?thesis by (simp add: pixel_difference_def ia ib va)
      next
        case vb: (Inr vb)
        have "length va = chans a" "length vb = chans b"
          using pixel_vector_length[OF assms(1)] pixel_vector_length[OF assms(2)] va vb ar br
          by simp_all
        with assms(3,4,5) have "l1_loss_sum va vb = Inl BroadcastError"
          by (simp add: l1_loss_sum_def)
        then show ?thesis by (simp add: pixel_difference_def ia ib va vb)
      qed
    qed
  qed
qed

lemma layer_loop_empty_zeros:
  "n \<le> height \<Longrightarrow>
   fold (\<lambda>h t. fold (\<lambda>w t. set_cell t h w 0) [0..<width] t) [0..<n] (zeros height width)
     = zeros height width"
proof -
  assume n: "n \<le> height"
  have "map (\<lambda>h. map (\<lambda>w. 0::real) [0..<width]) [0..<n] @ replicate (height - n) (replicate width 0)
        = replicate height (replicate width 0)"
    using n by (simp add: map_replicate_const replicate_add[symmetric])
  then show ?thesis
    using fold_rows_table[OF n, where f = "\<lambda>h w. 0" and width = width] by (simp add: zeros_def)
qed

lemma perceptual_difference_empty_synthesized:
  assumes "A \<noteq> []"
  shows "perceptual_difference_per_pixel A [] = Inr (zeros (rows (hd A)) (cols (hd A)))"
proof -
  from assms obtain fm0 rest where A: "A = fm0 # rest" by (cases A) auto
  let ?H = "rows fm0" and ?W = "cols fm0"
  have wl: "width_loop A [] ?H ?W h [0..<?W] pd =
            Inr (fold (\<lambda>w t. set_cell t h w 0) [0..<?W] pd)" for h pd
    by (rule width_loop_fold) simp
  have "height_loop A [] ?H ?W [0..<?H] (zeros ?H ?W) =
        Inr (fold (\<lambda>h t. fold (\<lambda>w t. set_cell t h w 0) [0..<?W] t) [0..<?H] (zeros ?H ?W))"
    by (rule height_loop_fold) (simp add: wl)
  then show ?thesis
    by (simp add: perceptual_difference_per_pixel_def A layer_loop_empty_zeros)
qed

lemma pixel_difference_split:
  "pixel_difference height width h w a b =
     (case interpolate a (height, width) of Inl e \<Rightarrow> Inl e
      | Inr ar \<Rightarrow>
     (case interpolate b (height, width) of Inl e \<Rightarrow> Inl e
      | Inr br \<Rightarrow> indexed_difference h w ar br))"
  by (simp add: pixel_difference_def indexed_difference_def split: sum.splits)

lemma hoisted_layer_loop_eq:
  "resize_layers height width ps = Inr resized \<Longrightarrow>
   hoisted_layer_loop h w resized acc = layer_loop height width h w ps acc"
proof (induction ps arbitrary: resized acc)
  case Nil
  then show ?case by simp
next
  case (Cons p ps)
  obtain a b where p: "p = (a, b)" by (cases p)
  from Cons.prems obtain ar br rs where
    ia: "interpolate a (height, width) = Inr ar" and
    ib: "interpolate b (height, width) = Inr br" and
    rs: "resize_layers height width ps = Inr rs" and
    resized: "resized = (ar, br) # rs"
    by (auto simp: p split: sum.splits)
  show ?case
    by (simp add: p resized pixel_difference_split ia ib Cons.IH[OF rs] split: sum.splits)
qed

lemma hoisted_width_loop_eq:
  assumes "resize_layers height width (zip A B) = Inr resized"
  shows "hoisted_width_loop resized h ws pd = width_loop A B height width h ws pd"
  by (induction ws arbitrary: pd)
     (simp_all add: hoisted_layer_loop_eq[OF assms] split: sum.splits)

lemma hoisted_height_loop_eq:
  assumes "resize_layers height width (zip A B) = Inr resized"
  shows "hoisted_height_loop resized width hs pd = height_loop A B height width hs pd"
  by (induction hs arbitrary: pd)
     (simp_all add: hoisted_width_loop_eq[OF assms] split: sum.splits)

lemma resize_layers_valid:
  assumes "\<forall>(a, b) \<in> set ps. valid_layer a \<and> valid_layer b \<and> chans a = chans b"
    and "0 < height" "0 < width"
  shows "\<exists>resized. resize_layers height width ps = Inr resized"
  using assms(1)
proof (induction ps)
  case Nil
  then show ?case by simp
next
  case (Cons p ps)
  obtain a b where p: "p = (a, b)" by (cases p)
  with Cons.prems have v: "valid_layer a" "valid_layer b"
    and rest: "\<forall>(a, b) \<in> set ps. valid_layer a \<and> valid_layer b \<and> chans a = chans b"
    by auto
  from Cons.IH[OF rest] obtain rs where "resize_layers height width ps = Inr rs" ..
  then show ?case
    by (simp add: p interpolate_valid[OF v(1) assms(2,3)] interpolate_valid[OF v(2) assms(2,3)])
qed

lemma valid_pair_hd:
  assumes "valid_pair A B"
  shows "valid_layer (hd A)"
proof -
  from assms obtain a A' where A: "A = a # A'" by (cases A) (auto simp: valid_pair_def)
  with assms obtain b B' where B: "B = b # B'" by (cases B) (auto simp: valid_pair_def)
  from assms show ?thesis by (simp add: A B valid_pair_def)
qed

section \<open>Properties of the preprocessor\<close>

lemma ToTensor_Resize:
  "ToTensor (Resize resample (h, w) img) =
     \<lparr>chans3 = 3, rows3 = h, cols3 = w,
      vals3 = map (\<lambda>c. map (\<lambda>i. map (\<lambda>j. real (unat (channel c (resample img (h, w) i j))) / 255)
                                   [0..<w]) [0..<h]) [0..<3]\<rparr>"
  by (simp add: ToTensor_def Resize_def comp_def)

lemma Normalize_three:
  assumes "length mean = 3" "length std = 3" "0 \<notin> set std"
  shows "Normalize mean std \<lparr>chans3 = 3, rows3 = h, cols3 = w,
            vals3 = map (\<lambda>c. map (\<lambda>i. map (\<lambda>j. f c i j) [0..<w]) [0..<h]) [0..<3]\<rparr> =
         Inr \<lparr>chans3 = 3, rows3 = h, cols3 = w,
            vals3 = map (\<lambda>c. map (\<lambda>i. map (\<lambda>j. (f c i j - mean ! c) / std ! c) [0..<w]) [0..<h])
                      [0..<3]\<rparr>"
proof -
  have "zip [0..<3] (map (\<lambda>c. map (\<lambda>i. map (\<lambda>j. f c i j) [0..<w]) [0..<h]) [0..<3]) =
        map (\<lambda>c. (c, map (\<lambda>i. map (\<lambda>j. f c i j) [0..<w]) [0..<h])) [0..<3]"
    by (simp add: zip_map2 zip_same_conv_map)
  then show ?thesis
    using assms by (simp add: Normalize_def comp_def del: upt_Suc)
qed

lemma preprocess_closed_form:
  "preprocess resample img =
     Inr \<lparr>batch = 1, chans = 3, rows = 224, cols = 224,
          vals = [map (\<lambda>c. map (\<lambda>i. map (\<lambda>j.
                     (real (unat (channel c (resample img (224, 224) i j))) / 255
                        - [0.485, 0.456, 0.406] ! c) / [0.229, 0.224, 0.225] ! c)
                   [0..<224]) [0..<224]) [0..<3]]\<rparr>"
proof -
  have "transform resample img =
     Inr \<lparr>chans3 = 3, rows3 = 224, cols3 = 224,
          vals3 = map (\<lambda>c. map (\<lambda>i. map (\<lambda>j.
                     (real (unat (channel c (resample img (224, 224) i j))) / 255
                        - [0.485, 0.456, 0.406] ! c) / [0.229, 0.224, 0.225] ! c)
                   [0..<224]) [0..<224]) [0..<3]\<rparr>"
    unfolding transform_def ToTensor_Resize
    by (rule Normalize_three) simp_all
  then show ?thesis
    unfolding preprocess_def unsqueeze0_def by (simp only: sum.case tensor3.simps)
qed

lemma byte_scaled_range:
  fixes b :: "8 word"
  shows "0 \<le> real (unat b) / 255 \<and> real (unat b) / 255 \<le> 1"
proof -
  have "unat b < 2 ^ 8" using unsigned_less[of b] by simp
  then have "unat b \<le> 255" by simp
  then have "real (unat b) \<le> real 255" by (rule of_nat_mono)
  moreover have "0 \<le> real (unat b)" by (rule of_nat_0_le_iff)
  ultimately show ?thesis by simp
qed

section \<open>Properties of paths and of the frame loop\<close>

lemma digit_not_sep: "k < 10 \<Longrightarrow> ''0123456789'' ! k \<noteq> CHR ''/''"
proof -
  assume "k < 10"
  then have "''0123456789'' ! k \<in> set ''0123456789''" by (intro nth_mem) simp
  moreover have "CHR ''/'' \<notin> set ''0123456789''" by simp
  ultimately show ?thesis by metis
qed

lemma str_nat_no_sep: "CHR ''/'' \<notin> set (str_nat n)"
proof (induction n rule: str_nat.induct)
  case (1 n)
  show ?case
  proof (cases "n < 10")
    case True
    then show ?thesis using digit_not_sep[of n] by (subst str_nat.simps) auto
  next
    case False
    have "n mod 10 < 10" by simp
    from digit_not_sep[OF this] "1.IH"[OF False] False
    show ?thesis by (subst str_nat.simps) auto
  qed
qed

lemma heatmap_name_no_sep: "CHR ''/'' \<notin> set (heatmap_name n)"
  using str_nat_no_sep[of n] by (simp add: heatmap_name_def)

lemma heatmap_name_nonempty: "heatmap_name n \<noteq> []"
  by (simp add: heatmap_name_def)

lemma dirname_join:
  assumes "d \<noteq> []" "last d \<noteq> CHR ''/''" "CHR ''/'' \<notin> set name" "name \<noteq> []"
  shows "dirname (os_path_join d name) = d"
proof -
  from assms(3,4) have "hd name \<noteq> CHR ''/''" by (cases name) auto
  with assms have j: "os_path_join d name = d @ ''/'' @ name"
    by (simp add: os_path_join_def)
  have "dropWhile (\<lambda>c. c \<noteq> CHR ''/'') (rev name @ CHR ''/'' # rev d) = CHR ''/'' # rev d"
  proof -
    have "\<forall>x \<in> set (rev name). \<not> (x \<noteq> CHR ''/'') \<longrightarrow> False"
      using assms(3) by auto
    then have "dropWhile (\<lambda>c. c \<noteq> CHR ''/'') (rev name) = []"
      by (intro dropWhile_eq_Nil_conv[THEN iffD2]) auto
    then show ?thesis by (simp add: dropWhile_append)
  qed
  then have h: "rev (dropWhile (\<lambda>c. c \<noteq> CHR ''/'') (rev (d @ ''/'' @ name))) = d @ ''/''"
    by simp
  from assms(1,2) have "last d \<in> set d" by simp
  with assms(2) have na: "\<not> list_all (\<lambda>c. c = CHR ''/'') (d @ ''/'')"
    by (auto simp: list_all_iff)
  from assms(1,2) have "hd (rev d) \<noteq> CHR ''/''" by (simp add: hd_rev)
  with assms(1) have "dropWhile (\<lambda>c. c = CHR ''/'') (rev d) = rev d"
    by (cases "rev d") auto
  then have s: "rev (dropWhile (\<lambda>c. c = CHR ''/'') (rev (d @ ''/''))) = d" by simp
  show ?thesis
    unfolding dirname_def j h Let_def using na s by simp
qed

lemma heatmap_path_dirname:
  "dirname (os_path_join save_dir (heatmap_name n)) = save_dir"
proof (rule dirname_join)
  show "save_dir \<noteq> []" by (simp add: save_dir_def)
  show "last save_dir \<noteq> CHR ''/''" by (simp add: save_dir_def)
  show "CHR ''/'' \<notin> set (heatmap_name n)" by (rule heatmap_name_no_sep)
  show "heatmap_name n \<noteq> []" by (rule heatmap_name_nonempty)
qed

lemma savefig_missing_directory:
  "save_dir \<notin> directories fs \<Longrightarrow>
   savefig fs (os_path_join save_dir (heatmap_name n)) fig = Inl OutputIOError"
  by (simp add: savefig_def heatmap_path_dirname)

lemma savefig_directories:
  "savefig fs path fig = Inr fs' \<Longrightarrow> directories fs' = directories fs"
  by (auto simp: savefig_def split: if_splits)

lemma process_frame_directories:
  "process_frame resample resnet18 hot fs n = Inr fs' \<Longrightarrow> directories fs' = directories fs"
  by (auto simp: process_frame_def Let_def split: sum.splits dest: savefig_directories)

lemma process_frame_missing_directory:
  assumes "save_dir \<notin> directories fs"
  shows "process_frame resample resnet18 hot fs n \<noteq> Inr fs'"
  by (auto simp: process_frame_def Let_def savefig_missing_directory[OF assms] split: sum.splits)

lemma script_first_frame:
  "script resample resnet18 hot fs =
     (case process_frame resample resnet18 hot fs 1 of
        Inl e \<Rightarrow> Inl e
      | Inr fs' \<Rightarrow> frame_loop resample resnet18 hot fs' [Suc 1..<1851])"
proof -
  have "(1::nat) < 1851" by simp
  then have u: "[1..<1851] = 1 # [Suc 1..<1851]" by (rule upt_conv_Cons)
  show ?thesis unfolding script_def u by (simp only: frame_loop.simps)
qed

section \<open>The claims about the aggregation\<close>

text \<open>
  Claim C1. For equal-length sequences that satisfy the layer/channel invariant the
  aggregation returns a map, and its value at every pixel (h, w) of the grid of layer 0 is
  the sum, over the layers l, of the sum over the channels of layer l of the absolute
  difference of the two resampled layers at (h, w), divided by the channel count of
  layer l.
\<close>

theorem aggregator_pixel_formula:
  assumes "valid_pair A B" and "h < rows (hd A)" and "w < cols (hd A)"
  shows "\<exists>m. perceptual_difference_per_pixel A B = Inr m \<and>
           cells m ! h ! w =
             (\<Sum>l<length A.
                (\<Sum>c<chans (A ! l).
                   \<bar>entry4 (upsample_bilinear2d (A ! l) (rows (hd A)) (cols (hd A))) 0 c h w
                    - entry4 (upsample_bilinear2d (B ! l) (rows (hd A)) (cols (hd A))) 0 c h w\<bar>)
                / real (chans (A ! l)))"
proof -
  from assms(1) have len: "length A = length B" by (simp add: valid_pair_def)
  have "cells (score_table A B (rows (hd A)) (cols (hd A))) ! h ! w =
        (\<Sum>l<length A. layer_score (rows (hd A)) (cols (hd A)) h w (A ! l) (B ! l))"
    by (simp add: score_table_cell[OF assms(2,3)] pixel_score_index_sum[OF len])
  then show ?thesis
    using perceptual_difference_valid[OF assms(1)] by (simp add: layer_score_def)
qed

theorem aggregator_pixel_formula_witness:
  "valid_pair [example_a0, example_a1] [example_b0, example_b1] \<and>
   1 < rows (hd [example_a0, example_a1]) \<and> 1 < cols (hd [example_a0, example_a1]) \<and>
   (\<exists>m. perceptual_difference_per_pixel [example_a0, example_a1] [example_b0, example_b1] = Inr m \<and>
        cells m ! 1 ! 1 = 7 / 2)"
proof -
  have v: "valid_pair [example_a0, example_a1] [example_b0, example_b1]" by code_simp
  have h: "1 < rows (hd [example_a0, example_a1])" by code_simp
  have w: "1 < cols (hd [example_a0, example_a1])" by code_simp
  have e: "(\<Sum>l<length [example_a0, example_a1].
           (\<Sum>c<chans ([example_a0, example_a1] ! l).
              \<bar>entry4 (upsample_bilinear2d ([example_a0, example_a1] ! l)
                        (rows (hd [example_a0, example_a1])) (cols (hd [example_a0, example_a1]))) 0 c 1 1
               - entry4 (upsample_bilinear2d ([example_b0, example_b1] ! l)
                        (rows (hd [example_a0, example_a1])) (cols (hd [example_a0, example_a1]))) 0 c 1 1\<bar>)
           / real (chans ([example_a0, example_a1] ! l))) = 7 / 2"
    by code_simp
  from aggregator_pixel_formula[OF v h w] obtain m where
    m: "perceptual_difference_per_pixel [example_a0, example_a1] [example_b0, example_b1] = Inr m"
    and c: "cells m ! 1 ! 1 =
      (\<Sum>l<length [example_a0, example_a1].
           (\<Sum>c<chans ([example_a0, example_a1] ! l).
              \<bar>entry4 (upsample_bilinear2d ([example_a0, example_a1] ! l)
                        (rows (hd [example_a0, example_a1])) (cols (hd [example_a0, example_a1]))) 0 c 1 1
               - entry4 (upsample_bilinear2d ([example_b0, example_b1] ! l)
                        (rows (hd [example_a0, example_a1])) (cols (hd [example_a0, example_a1]))) 0 c 1 1\<bar>)
           / real (chans ([example_a0, example_a1] ! l)))"
    by blast
  from c e have "cells m ! 1 ! 1 = 7 / 2" by (rule trans)
  with m v h w show ?thesis by blast
qed

text \<open>
  Claim C3. For valid sequences the map has the spatial shape of layer 0 of the first
  sequence: that many rows, each of that many columns.
\<close>

theorem map_shape_is_layer0_shape:
  assumes "valid_pair A B"
  shows "\<exists>m. perceptual_difference_per_pixel A B = Inr m \<and>
           rows2 m = rows (hd A) \<and> cols2 m = cols (hd A) \<and>
           length (cells m) = rows (hd A) \<and>
           (\<forall>row \<in> set (cells m). length row = cols (hd A))"
  using perceptual_difference_valid[OF assms] by (auto simp: score_table_def)

theorem map_shape_is_layer0_shape_witness:
  "valid_pair [example_a0, example_a1] [example_b0, example_b1] \<and>
   (\<exists>m. perceptual_difference_per_pixel [example_a0, example_a1] [example_b0, example_b1] = Inr m \<and>
        rows2 m = 2 \<and> cols2 m = 2 \<and> length (cells m) = 2 \<and>
        (\<forall>row \<in> set (cells m). length row = 2))"
proof -
  have v: "valid_pair [example_a0, example_a1] [example_b0, example_b1]" by code_simp
  have r: "rows (hd [example_a0, example_a1]) = 2" by code_simp
  have c: "cols (hd [example_a0, example_a1]) = 2" by code_simp
  from map_shape_is_layer0_shape[OF v] show ?thesis unfolding r c using v by blast
qed

text \<open>
  Claim C4, as the code has it. The map takes its shape from layer 0 of the first
  sequence. For valid sequences whose first layers have the same spatial shape, as they
  have when both come from the same extractor on inputs of the same size, swapping the two
  sequences gives the same map.
\<close>

theorem aggregator_symmetric:
  assumes "valid_pair A B" and "rows (hd A) = rows (hd B)" and "cols (hd A) = cols (hd B)"
  shows "perceptual_difference_per_pixel A B = perceptual_difference_per_pixel B A"
proof -
  from assms(1) have ch: "\<forall>(a, b) \<in> set (zip A B). chans a = chans b"
    by (auto simp: valid_pair_def)
  have "score_table A B (rows (hd A)) (cols (hd A)) = score_table B A (rows (hd B)) (cols (hd B))"
    by (simp add: score_table_def assms(2,3) pixel_score_commute[OF ch])
  then show ?thesis
    using perceptual_difference_valid[OF assms(1)]
      perceptual_difference_valid[OF valid_pair_commute[OF assms(1)]] by simp
qed

theorem aggregator_symmetric_witness:
  "valid_pair [example_a0, example_a1] [example_b0, example_b1] \<and>
   rows (hd [example_a0, example_a1]) = rows (hd [example_b0, example_b1]) \<and>
   cols (hd [example_a0, example_a1]) = cols (hd [example_b0, example_b1]) \<and>
   perceptual_difference_per_pixel [example_a0, example_a1] [example_b0, example_b1] =
   perceptual_difference_per_pixel [example_b0, example_b1] [example_a0, example_a1]"
proof -
  have v: "valid_pair [example_a0, example_a1] [example_b0, example_b1]" by code_simp
  have r: "rows (hd [example_a0, example_a1]) = rows (hd [example_b0, example_b1])" by code_simp
  have c: "cols (hd [example_a0, example_a1]) = cols (hd [example_b0, example_b1])" by code_simp
  from aggregator_symmetric[OF v r c] v r c show ?thesis by blast
qed

text \<open>
  Where the claim fails as stated: one channel on a 2 x 2 grid against one channel on a
  1 x 1 grid satisfies the layer/channel invariant, and the two orders give maps of
  different shapes.
\<close>

theorem aggregator_symmetric_counterexample:
  "valid_pair [example_c0] [example_b1] \<and>
   perceptual_difference_per_pixel [example_c0] [example_b1] =
     Inr \<lparr>rows2 = 2, cols2 = 2, cells = [[2, 1], [0, 1]]\<rparr> \<and>
   perceptual_difference_per_pixel [example_b1] [example_c0] =
     Inr \<lparr>rows2 = 1, cols2 = 1, cells = [[1 / 2]]\<rparr> \<and>
   perceptual_difference_per_pixel [example_c0] [example_b1] \<noteq>
   perceptual_difference_per_pixel [example_b1] [example_c0]"
  by code_simp

text \<open>
  Claim C5. When both sequences are the same valid sequence, the map is zero at every
  pixel (exactly zero, in the exact arithmetic of the model).
\<close>

theorem identical_inputs_zero_map:
  assumes "valid_pair A A"
  shows "perceptual_difference_per_pixel A A = Inr (zeros (rows (hd A)) (cols (hd A)))"
proof -
  have "score_table A A (rows (hd A)) (cols (hd A)) = zeros (rows (hd A)) (cols (hd A))"
    by (simp add: score_table_def zeros_def pixel_score_self map_replicate_const)
  then show ?thesis using perceptual_difference_valid[OF assms] by simp
qed

theorem identical_inputs_zero_map_witness:
  "valid_pair [example_a0, example_a1] [example_a0, example_a1] \<and>
   perceptual_difference_per_pixel [example_a0, example_a1] [example_a0, example_a1] =
   Inr \<lparr>rows2 = 2, cols2 = 2, cells = [[0, 0], [0, 0]]\<rparr>"
proof -
  have v: "valid_pair [example_a0, example_a1] [example_a0, example_a1]" by code_simp
  have z: "zeros (rows (hd [example_a0, example_a1])) (cols (hd [example_a0, example_a1])) =
           \<lparr>rows2 = 2, cols2 = 2, cells = [[0, 0], [0, 0]]\<rparr>" by code_simp
  from identical_inputs_zero_map[OF v] v show ?thesis unfolding z by blast
qed

text \<open>
  Claim C6. For valid sequences the value of the map at every pixel is non-negative.
\<close>

theorem map_nonnegative:
  assumes "valid_pair A B"
  shows "\<exists>m. perceptual_difference_per_pixel A B = Inr m \<and>
           (\<forall>h<rows2 m. \<forall>w<cols2 m. 0 \<le> cells m ! h ! w)"
  using perceptual_difference_valid[OF assms]
  by (simp add: score_table_def pixel_score_nonneg)

theorem map_nonnegative_witness:
  "valid_pair [example_a0, example_a1] [example_b0, example_b1] \<and>
   (\<exists>m. perceptual_difference_per_pixel [example_a0, example_a1] [example_b0, example_b1] = Inr m \<and>
        rows2 m = 2 \<and> cols2 m = 2 \<and> 0 \<le> cells m ! 1 ! 0)"
proof -
  have v: "valid_pair [example_a0, example_a1] [example_b0, example_b1]" by code_simp
  from map_nonnegative[OF v] obtain m where
    m: "perceptual_difference_per_pixel [example_a0, example_a1] [example_b0, example_b1] = Inr m"
    and nn: "\<forall>h<rows2 m. \<forall>w<cols2 m. 0 \<le> cells m ! h ! w" by blast
  have "perceptual_difference_per_pixel [example_a0, example_a1] [example_b0, example_b1] =
        Inr \<lparr>rows2 = 2, cols2 = 2, cells = [[2, 3], [5 / 2, 7 / 2]]\<rparr>" by code_simp
  with m have s: "rows2 m = 2" "cols2 m = 2" by auto
  with nn have "0 \<le> cells m ! 1 ! 0" by simp
  with m s v show ?thesis by blast
qed

text \<open>
  Claim C2, as the code has it. A difference in length raises nothing: the loop runs over
  \<^verbatim>\<open>zip\<close> of the two sequences, so for a non-empty second sequence the result is that of
  the two sequences cut to their common length, and for an empty second sequence (and a
  non-empty first one) it is the all-zero map. A layer pair whose channel counts differ
  aborts the aggregation with an error when neither count is 1 and layer 0 of the first
  sequence has at least one pixel.
\<close>

theorem mismatch_behaviour:
  "(B \<noteq> [] \<longrightarrow>
      perceptual_difference_per_pixel A B =
      perceptual_difference_per_pixel (take (length B) A) (take (length A) B)) \<and>
   (A \<noteq> [] \<and> B = [] \<longrightarrow>
      perceptual_difference_per_pixel A B = Inr (zeros (rows (hd A)) (cols (hd A)))) \<and>
   (A \<noteq> [] \<and> 0 < rows (hd A) \<and> 0 < cols (hd A) \<and> i < length A \<and> i < length B \<and>
    wf_tensor4 (A ! i) \<and> wf_tensor4 (B ! i) \<and>
    chans (A ! i) \<noteq> chans (B ! i) \<and> chans (A ! i) \<noteq> 1 \<and> chans (B ! i) \<noteq> 1 \<longrightarrow>
      (\<exists>e. perceptual_difference_per_pixel A B = Inl e))"
proof (intro conjI impI)
  assume B: "B \<noteq> []"
  show "perceptual_difference_per_pixel A B =
        perceptual_difference_per_pixel (take (length B) A) (take (length A) B)"
  proof (cases A)
    case Nil
    then show ?thesis by (simp add: perceptual_difference_per_pixel_def)
  next
    case (Cons fm0 rest)
    from B obtain b B' where B': "B = b # B'" by (cases B) auto
    define A1 where "A1 = take (length B) A"
    define B1 where "B1 = take (length A) B"
    have z: "zip A B = zip A1 B1"
      by (simp add: A1_def B1_def zip_take_lengths)
    have t: "A1 = fm0 # take (length B') rest"
      by (simp add: A1_def Cons B')
    have "perceptual_difference_per_pixel A1 B1 =
          height_loop A1 B1 (rows fm0) (cols fm0) [0..<rows fm0] (zeros (rows fm0) (cols fm0))"
      unfolding perceptual_difference_per_pixel_def by (simp add: t Let_def)
    also have "\<dots> = height_loop A B (rows fm0) (cols fm0) [0..<rows fm0] (zeros (rows fm0) (cols fm0))"
      by (rule height_loop_zip_cong[OF z, symmetric])
    also have "\<dots> = perceptual_difference_per_pixel A B"
      unfolding perceptual_difference_per_pixel_def by (simp add: Cons Let_def)
    finally show ?thesis by (simp add: A1_def B1_def)
  qed
next
  assume "A \<noteq> [] \<and> B = []"
  then show "perceptual_difference_per_pixel A B = Inr (zeros (rows (hd A)) (cols (hd A)))"
    by (simp add: perceptual_difference_empty_synthesized)
next
  assume a: "A \<noteq> [] \<and> 0 < rows (hd A) \<and> 0 < cols (hd A) \<and> i < length A \<and> i < length B \<and>
    wf_tensor4 (A ! i) \<and> wf_tensor4 (B ! i) \<and>
    chans (A ! i) \<noteq> chans (B ! i) \<and> chans (A ! i) \<noteq> 1 \<and> chans (B ! i) \<noteq> 1"
  then obtain fm0 rest where A: "A = fm0 # rest" by (cases A) auto
  let ?H = "rows fm0" and ?W = "cols fm0"
  from a A have pos: "0 < ?H" "0 < ?W" by simp_all
  from a have mem: "(A ! i, B ! i) \<in> set (zip A B)"
    by (auto simp: set_zip)
  from a obtain e where "pixel_difference ?H ?W 0 0 (A ! i) (B ! i) = Inl e"
    using pixel_difference_channel_mismatch by blast
  from layer_loop_error[OF mem this] obtain e' where
    e': "layer_loop ?H ?W 0 0 (zip A B) 0 = Inl e'" ..
  from pos have "[0..<?H] = 0 # [1..<?H]" "[0..<?W] = 0 # [1..<?W]"
    by (simp_all add: upt_conv_Cons)
  then have "height_loop A B ?H ?W [0..<?H] (zeros ?H ?W) = Inl e'"
    by (simp add: e')
  then show "\<exists>e. perceptual_difference_per_pixel A B = Inl e"
    by (simp add: perceptual_difference_per_pixel_def A)
qed

theorem mismatch_behaviour_witness:
  "[example_b0] \<noteq> [] \<and>
   perceptual_difference_per_pixel [example_a0, example_a1] [example_b0] =
     perceptual_difference_per_pixel (take (length [example_b0]) [example_a0, example_a1])
       (take (length [example_a0, example_a1]) [example_b0]) \<and>
   perceptual_difference_per_pixel [example_a0, example_a1] [] =
     Inr \<lparr>rows2 = 2, cols2 = 2, cells = [[0, 0], [0, 0]]\<rparr> \<and>
   chans ([example_d0] ! 0) \<noteq> chans ([example_a0] ! 0) \<and>
   (\<exists>e. perceptual_difference_per_pixel [example_d0] [example_a0] = Inl e)"
proof -
  have z: "zeros (rows (hd [example_a0, example_a1])) (cols (hd [example_a0, example_a1])) =
           \<lparr>rows2 = 2, cols2 = 2, cells = [[0, 0], [0, 0]]\<rparr>" by code_simp
  have p1: "perceptual_difference_per_pixel [example_a0, example_a1] [example_b0] =
     perceptual_difference_per_pixel (take (length [example_b0]) [example_a0, example_a1])
       (take (length [example_a0, example_a1]) [example_b0])"
    using mismatch_behaviour[of "[example_b0]" "[example_a0, example_a1]" 0] by blast
  have p2: "perceptual_difference_per_pixel [example_a0, example_a1] [] =
     Inr \<lparr>rows2 = 2, cols2 = 2, cells = [[0, 0], [0, 0]]\<rparr>"
    using mismatch_behaviour[of "[]" "[example_a0, example_a1]" 0] unfolding z by blast
  have hyp: "[example_d0] \<noteq> [] \<and> 0 < rows (hd [example_d0]) \<and> 0 < cols (hd [example_d0]) \<and>
    0 < length [example_d0] \<and> 0 < length [example_a0] \<and>
    wf_tensor4 ([example_d0] ! 0) \<and> wf_tensor4 ([example_a0] ! 0) \<and>
    chans ([example_d0] ! 0) \<noteq> chans ([example_a0] ! 0) \<and>
    chans ([example_d0] ! 0) \<noteq> 1 \<and> chans ([example_a0] ! 0) \<noteq> 1"
    by code_simp
  then have p3: "\<exists>e. perceptual_difference_per_pixel [example_d0] [example_a0] = Inl e"
    using mismatch_behaviour[of "[example_a0]" "[example_d0]" 0] by blast
  from p1 p2 p3 hyp show ?thesis by blast
qed

text \<open>
  Where the claim fails as stated: with two layers against one the aggregation returns the
  map of layer 0 alone, and with 1 channel against 2 it returns a map as well.
\<close>

theorem mismatch_counterexample:
  "length [example_a0, example_a1] \<noteq> length [example_b0] \<and>
   perceptual_difference_per_pixel [example_a0, example_a1] [example_b0] =
     Inr \<lparr>rows2 = 2, cols2 = 2, cells = [[0, 1], [1 / 2, 3 / 2]]\<rparr> \<and>
   chans example_c0 \<noteq> chans example_b0 \<and>
   perceptual_difference_per_pixel [example_c0] [example_b0] =
     Inr \<lparr>rows2 = 2, cols2 = 2, cells = [[1, 3], [1, 7]]\<rparr>"
  by code_simp

text \<open>
  Claim C7. For valid sequences, the aggregation that resizes every layer once and indexes
  into the resized layers in the pixel loop returns the same map as the aggregation of
  the script, which resizes inside the pixel loop.
\<close>

theorem hoisted_resize_equivalent:
  assumes "valid_pair A B"
  shows "hoisted_perceptual_difference A B = perceptual_difference_per_pixel A B \<and>
         (\<exists>m. perceptual_difference_per_pixel A B = Inr m)"
proof -
  from assms obtain fm0 rest where A: "A = fm0 # rest"
    by (cases A) (auto simp: valid_pair_def)
  from valid_pair_hd[OF assms] A have pos: "0 < rows fm0" "0 < cols fm0"
    by (simp_all add: valid_layer_def)
  from assms have ok: "\<forall>(a, b) \<in> set (zip A B). valid_layer a \<and> valid_layer b \<and> chans a = chans b"
    by (simp add: valid_pair_def)
  from resize_layers_valid[OF ok pos] obtain resized where
    r: "resize_layers (rows fm0) (cols fm0) (zip A B) = Inr resized" ..
  have "hoisted_perceptual_difference A B = perceptual_difference_per_pixel A B"
    using r
    by (simp add: hoisted_perceptual_difference_def perceptual_difference_per_pixel_def A
        hoisted_height_loop_eq[OF r])
  then show ?thesis using perceptual_difference_valid[OF assms] by simp
qed

theorem hoisted_resize_equivalent_witness:
  "valid_pair [example_a0, example_a1] [example_b0, example_b1] \<and>
   hoisted_perceptual_difference [example_a0, example_a1] [example_b0, example_b1] =
     perceptual_difference_per_pixel [example_a0, example_a1] [example_b0, example_b1] \<and>
   perceptual_difference_per_pixel [example_a0, example_a1] [example_b0, example_b1] =
     Inr \<lparr>rows2 = 2, cols2 = 2, cells = [[2, 3], [5 / 2, 7 / 2]]\<rparr>"
proof -
  have v: "valid_pair [example_a0, example_a1] [example_b0, example_b1]" by code_simp
  have e: "perceptual_difference_per_pixel [example_a0, example_a1] [example_b0, example_b1] =
        Inr \<lparr>rows2 = 2, cols2 = 2, cells = [[2, 3], [5 / 2, 7 / 2]]\<rparr>" by code_simp
  from hoisted_resize_equivalent[OF v] v e show ?thesis by blast
qed

section \<open>The claims about the preprocessor and the frame loop\<close>

text \<open>
  Claim C8. Whatever the size of the decoded image, the preprocessor returns a well-formed
  tensor of shape (1, 3, 224, 224): one batch element, three channels, 224 rows and 224
  columns. The entry of channel c at (i, j) is the byte of channel c of the resized
  image at (i, j), scaled by 255 into [0, 1], minus the mean of channel c, divided by the
  standard deviation of channel c, with means 0.485, 0.456, 0.406 and standard
  deviations 0.229, 0.224, 0.225.
\<close>

theorem preprocessor_contract:
  "\<exists>t. preprocess resample img = Inr t \<and>
        batch t = 1 \<and> chans t = 3 \<and> rows t = 224 \<and> cols t = 224 \<and> wf_tensor4 t \<and>
        (\<forall>c<3. \<forall>i<224. \<forall>j<224.
           0 \<le> real (unat (channel c (resample img (224, 224) i j))) / 255 \<and>
           real (unat (channel c (resample img (224, 224) i j))) / 255 \<le> 1 \<and>
           entry4 t 0 c i j =
             (real (unat (channel c (resample img (224, 224) i j))) / 255
                - [0.485, 0.456, 0.406] ! c) / [0.229, 0.224, 0.225] ! c)"
proof -
  let ?g = "\<lambda>c i j. (real (unat (channel c (resample img (224, 224) i j))) / 255
                        - [0.485, 0.456, 0.406] ! c) / [0.229, 0.224, 0.225] ! c"
  let ?t = "\<lparr>batch = 1, chans = 3, rows = 224, cols = 224,
          vals = [map (\<lambda>c. map (\<lambda>i. map (\<lambda>j. ?g c i j) [0..<224]) [0..<224]) [0..<3]]\<rparr>"
  have p: "preprocess resample img = Inr ?t" by (rule preprocess_closed_form)
  have wf: "wf_tensor4 ?t"
    unfolding wf_tensor4_def by (auto simp del: upt_Suc)
  have e: "entry4 ?t 0 c i j = ?g c i j" if "c < 3" "i < 224" "j < 224" for c i j
    unfolding entry4_def using that by (simp del: upt_Suc)
  have r: "0 \<le> real (unat (channel c (resample img (224, 224) i j))) / 255 \<and>
           real (unat (channel c (resample img (224, 224) i j))) / 255 \<le> 1" for c i j
    by (rule byte_scaled_range)
  have s: "batch ?t = 1" "chans ?t = 3" "rows ?t = 224" "cols ?t = 224"
    by simp_all
  from p wf e r s show ?thesis by blast
qed

theorem preprocessor_contract_witness:
  "(1::nat) < 3 \<and> (5::nat) < 224 \<and> (100::nat) < 224 \<and>
   (\<exists>t. preprocess nearest_resample example_image = Inr t \<and>
        batch t = 1 \<and> chans t = 3 \<and> rows t = 224 \<and> cols t = 224 \<and>
        entry4 t 0 1 5 100 = - 1 / 4)"
proof -
  have v: "(real (unat (channel 1 (nearest_resample example_image (224, 224) 5 100))) / 255
            - [0.485, 0.456, 0.406] ! 1) / [0.229, 0.224, 0.225] ! 1 = - 1 / 4"
    by code_simp
  from preprocessor_contract[of nearest_resample example_image] obtain t where
    t: "preprocess nearest_resample example_image = Inr t"
       "batch t = 1" "chans t = 3" "rows t = 224" "cols t = 224"
    and e: "\<forall>c<3. \<forall>i<224. \<forall>j<224.
           0 \<le> real (unat (channel c (nearest_resample example_image (224, 224) i j))) / 255 \<and>
           real (unat (channel c (nearest_resample example_image (224, 224) i j))) / 255 \<le> 1 \<and>
           entry4 t 0 c i j =
             (real (unat (channel c (nearest_resample example_image (224, 224) i j))) / 255
                - [0.485, 0.456, 0.406] ! c) / [0.229, 0.224, 0.225] ! c"
    by blast
  have b: "(1::nat) < 3" "(5::nat) < 224" "(100::nat) < 224" by simp_all
  from e b have "entry4 t 0 1 5 100 =
             (real (unat (channel 1 (nearest_resample example_image (224, 224) 5 100))) / 255
                - [0.485, 0.456, 0.406] ! 1) / [0.229, 0.224, 0.225] ! 1"
    by blast
  then have "entry4 t 0 1 5 100 = - 1 / 4" using v by (rule trans)
  with t b show ?thesis by blast
qed

text \<open>
  Claim C10. Nothing in the script creates a directory: a frame that is processed to the
  end leaves the set of directories as it was. So, when the save directory does not
  exist, writing the heatmap of any frame fails with an output I/O error, a frame whose
  images load and whose figure is computed ends in that error, and neither a frame nor the
  run as a whole can succeed.
\<close>

theorem missing_save_dir_write_fails:
  "(process_frame resample resnet18 hot fs n = Inr fs1 \<longrightarrow> directories fs1 = directories fs) \<and>
   (save_dir \<notin> directories fs \<longrightarrow>
      savefig fs (os_path_join save_dir (heatmap_name n)) fig = Inl OutputIOError \<and>
      (Image_open fs (os_path_join input_dir (frame_name n)) = Inr a \<and>
       Image_open fs (os_path_join synthesized_dir (frame_name n)) = Inr b \<and>
       heatmap resample resnet18 hot a b = Inr fig \<longrightarrow>
         process_frame resample resnet18 hot fs n = Inl OutputIOError) \<and>
      (\<forall>fs2. process_frame resample resnet18 hot fs n \<noteq> Inr fs2) \<and>
      (\<forall>fs2. script resample resnet18 hot fs \<noteq> Inr fs2))"
proof (intro conjI impI allI)
  assume "process_frame resample resnet18 hot fs n = Inr fs1"
  then show "directories fs1 = directories fs" by (rule process_frame_directories)
next
  assume m: "save_dir \<notin> directories fs"
  show "savefig fs (os_path_join save_dir (heatmap_name n)) fig = Inl OutputIOError"
    by (rule savefig_missing_directory[OF m])
  show "process_frame resample resnet18 hot fs n \<noteq> Inr fs2" for fs2
    by (rule process_frame_missing_directory[OF m])
  show "script resample resnet18 hot fs \<noteq> Inr fs2" for fs2
    using process_frame_missing_directory[OF m, of resample resnet18 hot 1]
    unfolding script_first_frame by (cases "process_frame resample resnet18 hot fs 1") simp_all
  assume "Image_open fs (os_path_join input_dir (frame_name n)) = Inr a \<and>
       Image_open fs (os_path_join synthesized_dir (frame_name n)) = Inr b \<and>
       heatmap resample resnet18 hot a b = Inr fig"
  then show "process_frame resample resnet18 hot fs n = Inl OutputIOError"
    by (simp add: process_frame_def Let_def savefig_missing_directory[OF m])
qed

theorem missing_save_dir_write_fails_witness:
  "save_dir \<notin> directories example_fs \<and>
   savefig example_fs (os_path_join save_dir (heatmap_name 1))
     (example_hot [[0, 0, 0], [0, 0, 0]]) = Inl OutputIOError \<and>
   process_frame nearest_resample example_extractor example_hot example_fs 1 = Inl OutputIOError \<and>
   (\<exists>fs1. process_frame nearest_resample example_extractor example_hot example_fs_with_save_dir 1
            = Inr fs1 \<and>
          directories fs1 = directories example_fs_with_save_dir)"
proof -
  let ?fig = "example_hot [[0, 0, 0], [0, 0, 0]]"
  let ?out = "os_path_join save_dir (heatmap_name 1)"
  have m: "save_dir \<notin> directories example_fs" by code_simp
  have a: "Image_open example_fs (os_path_join input_dir (frame_name 1)) = Inr example_image"
    by code_simp
  have b: "Image_open example_fs (os_path_join synthesized_dir (frame_name 1)) = Inr example_image"
    by code_simp
  have a': "Image_open example_fs_with_save_dir (os_path_join input_dir (frame_name 1))
            = Inr example_image"
    by code_simp
  have b': "Image_open example_fs_with_save_dir (os_path_join synthesized_dir (frame_name 1))
            = Inr example_image"
    by code_simp
  have pd: "perceptual_difference_per_pixel [example_a0, example_a1] [example_a0, example_a1] =
            Inr \<lparr>rows2 = 2, cols2 = 2, cells = [[0, 0], [0, 0]]\<rparr>"
    by code_simp
  have up: "(case interpolate (unsqueeze00 \<lparr>rows2 = 2, cols2 = 2, cells = [[0, 0], [0, 0]]\<rparr>)
                   (im_height example_image, im_width example_image) of
              Inl e \<Rightarrow> Inl e
            | Inr r \<Rightarrow> if rows r \<le> 1 \<or> cols r \<le> 1 then Inl RenderError
                       else Inr (example_hot (vals r ! 0 ! 0))) = Inr ?fig"
    by code_simp
  have hm: "heatmap nearest_resample example_extractor example_hot example_image example_image
            = Inr ?fig"
    unfolding heatmap_def preprocess_closed_form
    by (simp only: sum.case Let_def example_extractor_def pd up)
  have d: "dirname ?out \<in> directories example_fs_with_save_dir"
    unfolding heatmap_path_dirname by code_simp
  have nd: "?out \<notin> directories example_fs_with_save_dir" by code_simp
  have sf: "savefig example_fs_with_save_dir ?out ?fig =
            Inr (example_fs_with_save_dir\<lparr>files :=
                   (files example_fs_with_save_dir)(?out \<mapsto> ImageFile ?fig)\<rparr>)"
    using d nd by (simp add: savefig_def)
  have ok: "process_frame nearest_resample example_extractor example_hot example_fs_with_save_dir 1
            = Inr (example_fs_with_save_dir\<lparr>files :=
                   (files example_fs_with_save_dir)(?out \<mapsto> ImageFile ?fig)\<rparr>)"
    unfolding process_frame_def by (simp only: Let_def a' b' hm sum.case sf)
  note t1 = missing_save_dir_write_fails[of nearest_resample example_extractor example_hot
      example_fs 1 _ ?fig example_image example_image]
  note t2 = missing_save_dir_write_fails[of nearest_resample example_extractor example_hot
      example_fs_with_save_dir 1
      "example_fs_with_save_dir\<lparr>files :=
         (files example_fs_with_save_dir)(?out \<mapsto> ImageFile ?fig)\<rparr>"]
  from t1 m a b hm have
    "savefig example_fs ?out ?fig = Inl OutputIOError"
    "process_frame nearest_resample example_extractor example_hot example_fs 1 = Inl OutputIOError"
    by blast+
  moreover from t2 ok have
    "directories (example_fs_with_save_dir\<lparr>files :=
         (files example_fs_with_save_dir)(?out \<mapsto> ImageFile ?fig)\<rparr>)
     = directories example_fs_with_save_dir"
    by blast
  ultimately show ?thesis using m ok by blast
qed

end
